theory Spec2Isabelle
  imports Complex_Main "HOL-Library.Word" "HOL-Library.Multiset" "HOL-Library.Sublist"
    "HOL-Library.Char_ord" "HOL-Library.List_Lexorder" "HOL-Library.Product_Lexorder"
begin

section \<open>Shared conventions\<close>

text \<open>
  The server is written in Go. A Go \<^verbatim>\<open>int\<close> is modelled as \<^typ>\<open>int\<close>: the functions
  below only compare such values and multiply them after they have been bounded, so no
  operation can leave the 64-bit range. Fixed-width fields (\<^verbatim>\<open>int32\<close>, \<^verbatim>\<open>uint64\<close>,
  \<^verbatim>\<open>int64\<close>) are machine words. A Go string is its byte sequence.
  Calls into the standard library and into gopsutil are parameters of the model: a record
  holds, for each library function, what it returns. Log output is not modelled.
\<close>

type_synonym int32 = "32 word"
type_synonym int64 = "64 word"
type_synonym uint64 = "64 word"

text \<open>A Go \<^verbatim>\<open>error\<close> is represented by the text that its \<^verbatim>\<open>Error()\<close> method returns.\<close>

datatype error = Errorf string

fun Error :: "error \<Rightarrow> string" where
  "Error (Errorf msg) = msg"

subsection \<open>Floating point values\<close>

text \<open>
  The fields of Go type \<^verbatim>\<open>float64\<close> and \<^verbatim>\<open>float32\<close> are only stored and compared. A
  float is NaN, an infinity, or a number; the two zeros, which Go compares as equal, are the one
  value \<open>Num 0\<close>. \<open>float_less\<close> is Go's \<^verbatim>\<open><\<close>, \<open>float_greater\<close> its \<^verbatim>\<open>>\<close> and
  \<open>float_ge\<close> its \<^verbatim>\<open>>=\<close>: every comparison with NaN is false.
\<close>

datatype float = NaN | NegInf | Num real | PosInf

fun float_less :: "float \<Rightarrow> float \<Rightarrow> bool" where
  "float_less NaN b = False"
| "float_less a NaN = False"
| "float_less NegInf b = (b \<noteq> NegInf)"
| "float_less (Num x) (Num y) = (x < y)"
| "float_less (Num x) PosInf = True"
| "float_less (Num x) NegInf = False"
| "float_less PosInf b = False"

definition float_greater :: "float \<Rightarrow> float \<Rightarrow> bool" where
  "float_greater a b = float_less b a"

definition float_ge :: "float \<Rightarrow> float \<Rightarrow> bool" where
  "float_ge a b = (a \<noteq> NaN \<and> b \<noteq> NaN \<and> \<not> float_less a b)"

text \<open>
  The position of a float that is not NaN in the descending order, as a pair that is compared
  lexicographically; it serves the proofs about sorting.
\<close>

fun descendingRank :: "float \<Rightarrow> int \<times> real" where
  "descendingRank PosInf = (- 1, 0)"
| "descendingRank (Num x) = (0, - x)"
| "descendingRank NegInf = (1, 0)"
| "descendingRank NaN = (2, 0)"

section \<open>HTTP adapter: runtime configuration\<close>

record ServerConfig =
  RefreshInterval :: int
  EnableDebug :: bool

record HTTPServer =
  config :: ServerConfig

definition NewHTTPServer :: HTTPServer where
  "NewHTTPServer = \<lparr>config = \<lparr>RefreshInterval = 1000, EnableDebug = False\<rparr>\<rparr>"

text \<open>
  The two library calls of \<^verbatim>\<open>parseConfig\<close>: \<^verbatim>\<open>base64.StdEncoding.DecodeString\<close> and
  \<^verbatim>\<open>json.Unmarshal\<close> into a fresh \<^verbatim>\<open>ServerConfig\<close>.
\<close>

record ConfigCodec =
  DecodeString :: "string \<Rightarrow> error + string"
  Unmarshal :: "string \<Rightarrow> error + ServerConfig"

definition parseConfig :: "ConfigCodec \<Rightarrow> HTTPServer \<Rightarrow> string \<Rightarrow> HTTPServer \<times> error option" where
  "parseConfig lib h configParam =
     (case DecodeString lib configParam of
        Inl err \<Rightarrow> (h, Some (Errorf (''failed to decode config: '' @ Error err)))
      | Inr decoded \<Rightarrow>
          (case Unmarshal lib decoded of
             Inl err \<Rightarrow> (h, Some (Errorf (''failed to unmarshal config: '' @ Error err)))
           | Inr cfg \<Rightarrow>
               (let cfg' = (if RefreshInterval cfg < 100 \<or> RefreshInterval cfg > 10000
                            then cfg\<lparr>RefreshInterval := 1000\<rparr> else cfg)
                in (h\<lparr>config := cfg'\<rparr>, None))))"

text \<open>
  A codec that is the real one on three blobs, used to run \<^const>\<open>parseConfig\<close>:
  the base64 forms of the JSON objects with \<^verbatim>\<open>refreshInterval\<close> 50, 250 and 20000.
\<close>

definition blob50 :: string where
  "blob50 = ''eyJyZWZyZXNoSW50ZXJ2YWwiOjUwLCJlbmFibGVEZWJ1ZyI6dHJ1ZX0=''"

definition blob250 :: string where
  "blob250 = ''eyJyZWZyZXNoSW50ZXJ2YWwiOjI1MCwiZW5hYmxlRGVidWciOnRydWV9''"

definition blob20000 :: string where
  "blob20000 = ''eyJyZWZyZXNoSW50ZXJ2YWwiOjIwMDAwLCJlbmFibGVEZWJ1ZyI6ZmFsc2V9''"

definition json50 :: string where
  \<open>json50 = ''{"refreshInterval":50,"enableDebug":true}''\<close>

definition json250 :: string where
  \<open>json250 = ''{"refreshInterval":250,"enableDebug":true}''\<close>

definition json20000 :: string where
  \<open>json20000 = ''{"refreshInterval":20000,"enableDebug":false}''\<close>

definition tableCodec :: ConfigCodec where
  "tableCodec =
     \<lparr>DecodeString = (\<lambda>s. if s = blob50 then Inr json50
                          else if s = blob250 then Inr json250
                          else if s = blob20000 then Inr json20000
                          else Inl (Errorf ''illegal base64 data'')),
      Unmarshal = (\<lambda>d. if d = json50 then Inr \<lparr>RefreshInterval = 50, EnableDebug = True\<rparr>
                       else if d = json250 then Inr \<lparr>RefreshInterval = 250, EnableDebug = True\<rparr>
                       else if d = json20000 then Inr \<lparr>RefreshInterval = 20000, EnableDebug = False\<rparr>
                       else Inl (Errorf ''invalid character''))\<rparr>"

section \<open>CPU information\<close>

text \<open>\<^verbatim>\<open>time.Duration\<close> counts nanoseconds.\<close>

definition Millisecond :: int where
  "Millisecond = 1000000"

definition Second :: int where
  "Second = 1000 * Millisecond"

text \<open>
  Field names of library structs carry the package as a prefix, since record fields share one
  name space. \<^verbatim>\<open>CPUInfo.Count\<close> is called \<open>LogicalCount\<close>, after its JSON name: the name
  \<open>Count\<close> is taken by \<^verbatim>\<open>ProcessInfoResult\<close>.
\<close>

record InfoStat =
  cpu_ModelName :: string
  cpu_Family :: string
  cpu_Mhz :: float
  cpu_CacheSize :: int32
  cpu_Flags :: "string list"

record CPUInfo =
  Usage :: "float list"
  LogicalCount :: int
  PhysicalCount :: int
  ModelName :: string
  Family :: string
  Speed :: float
  CacheSize :: int32
  Flags :: "string list"

text \<open>The gopsutil \<^verbatim>\<open>cpu\<close> package and \<^verbatim>\<open>runtime.NumCPU\<close>.\<close>

record CPULib =
  PercentWithContext :: "int \<Rightarrow> bool \<Rightarrow> error + float list"
  InfoWithContext :: "error + InfoStat list"
  Counts :: "bool \<Rightarrow> error + int"
  NumCPU :: int

text \<open>
  The first statement of \<^verbatim>\<open>getCPUInfo\<close>: the sampling window handed to
  \<^verbatim>\<open>cpu.PercentWithContext\<close>, computed from \<^verbatim>\<open>intervalMs\<close>.
\<close>

definition samplingInterval :: "int \<Rightarrow> int" where
  "samplingInterval intervalMs =
     (if intervalMs > 0
      then (let ms1 = (if intervalMs < 100 then 100 else intervalMs);
                ms2 = (if ms1 > 10000 then 10000 else ms1)
            in ms2 * Millisecond)
      else Second)"

definition getCPUInfo :: "CPULib \<Rightarrow> bool \<Rightarrow> int \<Rightarrow> error + CPUInfo" where
  "getCPUInfo lib perCPU intervalMs =
     (let interval = samplingInterval intervalMs in
      case (if perCPU then PercentWithContext lib interval True
            else PercentWithContext lib interval False) of
        Inl err \<Rightarrow> Inl (Errorf (''failed to get CPU usage: '' @ Error err))
      | Inr usage \<Rightarrow>
          (case InfoWithContext lib of
             Inl err \<Rightarrow> Inl (Errorf (''failed to get CPU info: '' @ Error err))
           | Inr info \<Rightarrow>
               (let logicalCount = (case Counts lib True of Inl _ \<Rightarrow> NumCPU lib | Inr n \<Rightarrow> n);
                    physicalCount = (case Counts lib False of Inl _ \<Rightarrow> logicalCount | Inr n \<Rightarrow> n)
                in Inr (case info of
                     [] \<Rightarrow> \<lparr>Usage = usage, LogicalCount = logicalCount,
                            PhysicalCount = physicalCount, ModelName = [], Family = [],
                            Speed = Num 0, CacheSize = 0, Flags = []\<rparr>
                   | i0 # _ \<Rightarrow> \<lparr>Usage = usage, LogicalCount = logicalCount,
                            PhysicalCount = physicalCount, ModelName = cpu_ModelName i0,
                            Family = cpu_Family i0, Speed = cpu_Mhz i0,
                            CacheSize = cpu_CacheSize i0, Flags = cpu_Flags i0\<rparr>))))"

section \<open>Disk information\<close>

record UsageStat =
  usage_Fstype :: string
  usage_Total :: uint64
  usage_Free :: uint64
  usage_Used :: uint64
  usage_UsedPercent :: float
  usage_InodesTotal :: uint64
  usage_InodesUsed :: uint64
  usage_InodesFree :: uint64

record PartitionStat =
  part_Device :: string
  part_Mountpoint :: string
  part_Fstype :: string

record DiskInfo =
  Device :: string
  Mountpoint :: string
  Fstype :: string
  Total :: uint64
  Free :: uint64
  Used :: uint64
  UsedPercent :: float
  InodesTotal :: uint64
  InodesUsed :: uint64
  InodesFree :: uint64

record DiskInfoResult =
  Disks :: "DiskInfo list"

text \<open>
  The gopsutil \<^verbatim>\<open>disk\<close> package: the usage query of a path, and the list of partitions
  (\<^verbatim>\<open>disk.PartitionsWithContext(ctx, false)\<close>).
\<close>

record DiskLib =
  UsageWithContext :: "string \<Rightarrow> error + UsageStat"
  PartitionsWithContext :: "error + PartitionStat list"

text \<open>The record built for a given path (struct literal of the first branch).\<close>

definition pathRecord :: "string \<Rightarrow> UsageStat \<Rightarrow> DiskInfo" where
  "pathRecord path u =
     \<lparr>Device = ''N/A'', Mountpoint = path, Fstype = usage_Fstype u, Total = usage_Total u,
      Free = usage_Free u, Used = usage_Used u, UsedPercent = usage_UsedPercent u,
      InodesTotal = usage_InodesTotal u, InodesUsed = usage_InodesUsed u,
      InodesFree = usage_InodesFree u\<rparr>"

text \<open>The record appended for a partition (struct literal inside the loop).\<close>

definition partitionRecord :: "PartitionStat \<Rightarrow> UsageStat \<Rightarrow> DiskInfo" where
  "partitionRecord p u =
     \<lparr>Device = part_Device p, Mountpoint = part_Mountpoint p, Fstype = part_Fstype p,
      Total = usage_Total u, Free = usage_Free u, Used = usage_Used u,
      UsedPercent = usage_UsedPercent u, InodesTotal = usage_InodesTotal u,
      InodesUsed = usage_InodesUsed u, InodesFree = usage_InodesFree u\<rparr>"

text \<open>The loop over the partitions; \<open>disks\<close> is the slice built so far.\<close>

fun partitionLoop :: "DiskLib \<Rightarrow> PartitionStat list \<Rightarrow> DiskInfo list \<Rightarrow> DiskInfo list" where
  "partitionLoop lib [] disks = disks"
| "partitionLoop lib (p # parts) disks =
     (case UsageWithContext lib (part_Mountpoint p) of
        Inl err \<Rightarrow> partitionLoop lib parts disks
      | Inr u \<Rightarrow> partitionLoop lib parts (disks @ [partitionRecord p u]))"

definition getDiskInfo :: "DiskLib \<Rightarrow> string \<Rightarrow> error + DiskInfoResult" where
  "getDiskInfo lib path =
     (if path \<noteq> []
      then (case UsageWithContext lib path of
              Inl err \<Rightarrow> Inl (Errorf (''failed to get disk usage for '' @ path @ '': '' @ Error err))
            | Inr u \<Rightarrow> Inr \<lparr>Disks = [pathRecord path u]\<rparr>)
      else (case PartitionsWithContext lib of
              Inl err \<Rightarrow> Inl (Errorf (''failed to get disk partitions: '' @ Error err))
            | Inr parts \<Rightarrow> Inr \<lparr>Disks = partitionLoop lib parts []\<rparr>))"

section \<open>Network information\<close>

record IOCountersStat =
  io_Name :: string
  io_BytesSent :: uint64
  io_BytesRecv :: uint64
  io_PacketsSent :: uint64
  io_PacketsRecv :: uint64
  io_Errin :: uint64
  io_Errout :: uint64
  io_Dropin :: uint64
  io_Dropout :: uint64

record NetworkInfo =
  Interface :: string
  BytesSent :: uint64
  BytesRecv :: uint64
  PacketsSent :: uint64
  PacketsRecv :: uint64
  Errin :: uint64
  Errout :: uint64
  Dropin :: uint64
  Dropout :: uint64

record NetworkInfoResult =
  Interfaces :: "NetworkInfo list"

definition interfaceRecord :: "IOCountersStat \<Rightarrow> NetworkInfo" where
  "interfaceRecord s =
     \<lparr>Interface = io_Name s, BytesSent = io_BytesSent s, BytesRecv = io_BytesRecv s,
      PacketsSent = io_PacketsSent s, PacketsRecv = io_PacketsRecv s, Errin = io_Errin s,
      Errout = io_Errout s, Dropin = io_Dropin s, Dropout = io_Dropout s\<rparr>"

text \<open>The loop over the counters; \<open>out\<close> is the slice built so far.\<close>

fun interfaceLoop :: "string \<Rightarrow> IOCountersStat list \<Rightarrow> NetworkInfo list \<Rightarrow> NetworkInfo list" where
  "interfaceLoop iface [] out = out"
| "interfaceLoop iface (s # stats) out =
     (if iface \<noteq> [] \<and> io_Name s \<noteq> iface then interfaceLoop iface stats out
      else interfaceLoop iface stats (out @ [interfaceRecord s]))"

text \<open>
  The argument \<open>counters\<close> is the result of \<^verbatim>\<open>net.IOCountersWithContext(ctx, true)\<close>.
\<close>

definition getNetworkInfo :: "(error + IOCountersStat list) \<Rightarrow> string \<Rightarrow> error + NetworkInfoResult" where
  "getNetworkInfo counters iface =
     (case counters of
        Inl err \<Rightarrow> Inl (Errorf (''failed to get network stats: '' @ Error err))
      | Inr stats \<Rightarrow> Inr \<lparr>Interfaces = interfaceLoop iface stats []\<rparr>)"

section \<open>Process information\<close>

subsection \<open>Library functions on strings and slices\<close>

text \<open>
  \<^verbatim>\<open>strings.ToLower\<close> and \<^verbatim>\<open>strings.Fields\<close> treat text that is all ASCII (every byte below
  128) by themselves and hand any other text to the Unicode routines, \<^verbatim>\<open>strings.Map\<close> with
  \<^verbatim>\<open>unicode.ToLower\<close> and \<^verbatim>\<open>strings.FieldsFunc\<close> with \<^verbatim>\<open>unicode.IsSpace\<close>. The ASCII
  part is modelled; the two Unicode routines are parameters.
\<close>

record StringsLib =
  MapToLower :: "string \<Rightarrow> string"
  FieldsFuncIsSpace :: "string \<Rightarrow> string list"

definition isASCII :: "string \<Rightarrow> bool" where
  "isASCII s = list_all (\<lambda>c. (of_char c :: nat) < 128) s"

text \<open>On ASCII text the letters \<open>A\<close> to \<open>Z\<close> become \<open>a\<close> to \<open>z\<close> and every other byte is kept.\<close>

definition lowerByte :: "char \<Rightarrow> char" where
  "lowerByte c =
     (let n = (of_char c :: nat) in if 65 \<le> n \<and> n \<le> 90 then char_of (n + 32) else c)"

definition ToLower :: "StringsLib \<Rightarrow> string \<Rightarrow> string" where
  "ToLower sl s = (if isASCII s then map lowerByte s else MapToLower sl s)"

text \<open>\<^verbatim>\<open>strings.Contains\<close>: \<open>substr\<close> occurs in \<open>s\<close> as a contiguous block.\<close>

fun Contains :: "string \<Rightarrow> string \<Rightarrow> bool" where
  "Contains [] substr = (substr = [])"
| "Contains (c # s) substr = (prefix substr (c # s) \<or> Contains s substr)"

text \<open>On ASCII text the separators are tab, line feed, vertical tab, form feed, return and space.\<close>

definition isSpace :: "char \<Rightarrow> bool" where
  "isSpace c = ((of_char c :: nat) \<in> {9, 10, 11, 12, 13, 32})"

fun fieldsFrom :: "string \<Rightarrow> string \<Rightarrow> string list" where
  "fieldsFrom w [] = (if w = [] then [] else [w])"
| "fieldsFrom w (c # cs) =
     (if isSpace c then (if w = [] then fieldsFrom [] cs else w # fieldsFrom [] cs)
      else fieldsFrom (w @ [c]) cs)"

definition Fields :: "StringsLib \<Rightarrow> string \<Rightarrow> string list" where
  "Fields sl s = (if isASCII s then fieldsFrom [] s else FieldsFuncIsSpace sl s)"

text \<open>The verb \<^verbatim>\<open>%d\<close> of \<^verbatim>\<open>fmt\<close>: a signed integer in decimal.\<close>

function natDigits :: "nat \<Rightarrow> string" where
  "natDigits n = (if n < 10 then [char_of (48 + n)]
                  else natDigits (n div 10) @ [char_of (48 + n mod 10)])"
  by pat_completeness auto
termination
  by (relation "measure id") auto

definition Itoa :: "int \<Rightarrow> string" where
  "Itoa i = (if i < 0 then CHR ''-'' # natDigits (nat (- i)) else natDigits (nat i))"

text \<open>
  \<^verbatim>\<open>sort.SliceStable\<close> sorts a slice by a \<open>less\<close> function. On a slice of at most 20 elements
  it is the insertion sort
  \<^verbatim>\<open>for i := 1; i < n; i++ { for j := i; j > 0 && less(j, j-1); j-- { swap(j, j-1) } }\<close>:
  each element in turn moves towards the front, past every element that it is less than, until
  it meets one that it is not less than. \<open>insertLeft lt x front\<close> is that inner loop;
  \<open>front\<close> holds the elements before \<open>x\<close>, the nearest first. The Go \<open>less\<close> takes two indices into the
  slice; here it is the relation \<open>lt\<close> on the two elements.

  On a longer slice Go sorts blocks of 20 elements in this way and merges them. Whenever \<open>lt\<close>
  is a strict weak order, the result is the one list that is sorted and keeps equal elements in
  their original order, so it is again the result of the insertion sort. The model is the
  insertion sort at every length.
\<close>

fun insertLeft :: "('a \<Rightarrow> 'a \<Rightarrow> bool) \<Rightarrow> 'a \<Rightarrow> 'a list \<Rightarrow> 'a list" where
  "insertLeft lt x [] = [x]"
| "insertLeft lt x (y # front) = (if lt x y then y # insertLeft lt x front else x # y # front)"

definition SliceStable :: "('a \<Rightarrow> 'a \<Rightarrow> bool) \<Rightarrow> 'a list \<Rightarrow> 'a list" where
  "SliceStable lt xs = rev (foldl (\<lambda>front x. insertLeft lt x front) [] xs)"

subsection \<open>Processes\<close>

record MemoryInfoStat =
  mem_RSS :: uint64
  mem_VMS :: uint64

text \<open>
  A gopsutil process handle, as \<^verbatim>\<open>getProcessDetails\<close> observes it: its pid and, for each
  query, the pair of value and error that the query returns.
\<close>

record Process =
  Pid :: int32
  NameWithContext :: "string \<times> error option"
  StatusWithContext :: "string list \<times> error option"
  CPUPercentWithContext :: "float \<times> error option"
  MemoryInfoWithContext :: "MemoryInfoStat option \<times> error option"
  MemoryPercentWithContext :: "float \<times> error option"
  CreateTimeWithContext :: "int64 \<times> error option"
  NumThreadsWithContext :: "int32 \<times> error option"
  UsernameWithContext :: "string \<times> error option"
  CmdlineWithContext :: "string \<times> error option"

record ProcessInfo =
  PID :: int32
  Name :: string
  Status :: string
  CPUPercent :: float
  MemoryRSS :: uint64
  MemoryVMS :: uint64
  MemoryPercent :: float
  CreateTime :: int64
  NumThreads :: int32
  Username :: string
  Cmdline :: "string list"

record ProcessInfoResult =
  Processes :: "ProcessInfo list"
  Count :: int

text \<open>The gopsutil \<^verbatim>\<open>process\<close> package.\<close>

record ProcessLib =
  NewProcess :: "int32 \<Rightarrow> error + Process"
  ProcessesWithContext :: "error + Process list"

definition getProcessDetails :: "StringsLib \<Rightarrow> Process \<Rightarrow> ProcessInfo \<times> error option" where
  "getProcessDetails sl proc =
     (let name = fst (NameWithContext proc);
          statusSlice = fst (StatusWithContext proc);
          cpuPercent = fst (CPUPercentWithContext proc);
          memInfo = fst (MemoryInfoWithContext proc);
          memPercent = fst (MemoryPercentWithContext proc);
          createTime = fst (CreateTimeWithContext proc);
          numThreads = fst (NumThreadsWithContext proc);
          username = fst (UsernameWithContext proc);
          cmdlineStr = fst (CmdlineWithContext proc);
          memoryRSS = (case memInfo of None \<Rightarrow> 0 | Some m \<Rightarrow> mem_RSS m);
          memoryVMS = (case memInfo of None \<Rightarrow> 0 | Some m \<Rightarrow> mem_VMS m);
          statusStr = (case statusSlice of [] \<Rightarrow> [] | s0 # _ \<Rightarrow> s0);
          cmdlineSlice = (if cmdlineStr \<noteq> [] then Fields sl cmdlineStr else [])
      in (\<lparr>PID = Pid proc, Name = name, Status = statusStr, CPUPercent = cpuPercent,
           MemoryRSS = memoryRSS, MemoryVMS = memoryVMS, MemoryPercent = memPercent,
           CreateTime = createTime, NumThreads = numThreads, Username = username,
           Cmdline = cmdlineSlice\<rparr>, None))"

definition sortProcessesBy :: "StringsLib \<Rightarrow> ProcessInfo list \<Rightarrow> string \<Rightarrow> ProcessInfo list" where
  "sortProcessesBy sl processes sortBy =
     (let key = ToLower sl sortBy in
      if key = ''memory''
      then SliceStable (\<lambda>a b. float_greater (MemoryPercent a) (MemoryPercent b)) processes
      else if key = ''pid'' then SliceStable (\<lambda>a b. PID a <s PID b) processes
      else if key = ''name'' then SliceStable (\<lambda>a b. Name a < Name b) processes
      else SliceStable (\<lambda>a b. float_greater (CPUPercent a) (CPUPercent b)) processes)"

text \<open>The first two statements of \<^verbatim>\<open>getProcessInfo\<close>: the limit that the rest of it uses.\<close>

definition effectiveLimit :: "int \<Rightarrow> int" where
  "effectiveLimit limit =
     (let l1 = (if limit \<le> 0 then 10 else limit);
          l2 = (if l1 > 200 then 200 else l1)
      in l2)"

text \<open>The test of the name filter in the loop: true when the record is passed over.\<close>

definition filteredOut :: "StringsLib \<Rightarrow> string \<Rightarrow> ProcessInfo \<Rightarrow> bool" where
  "filteredOut sl name info =
     (name \<noteq> [] \<and> \<not> Contains (ToLower sl (Name info)) (ToLower sl name))"

text \<open>
  The loop over the enumerated processes; \<open>list\<close> is the slice built so far and \<open>limit\<close> the
  effective limit.
\<close>

fun processLoop ::
  "StringsLib \<Rightarrow> string \<Rightarrow> int \<Rightarrow> Process list \<Rightarrow> ProcessInfo list \<Rightarrow> ProcessInfo list" where
  "processLoop sl name limit [] list = list"
| "processLoop sl name limit (p # procs) list =
     (case getProcessDetails sl p of
        (info, Some err) \<Rightarrow> processLoop sl name limit procs list
      | (info, None) \<Rightarrow>
          if filteredOut sl name info
          then processLoop sl name limit procs list
          else (let list' = list @ [info] in
                if int (length list') \<ge> limit * 2 then list'
                else processLoop sl name limit procs list'))"

definition getProcessInfo ::
  "StringsLib \<Rightarrow> ProcessLib \<Rightarrow> int32 \<Rightarrow> string \<Rightarrow> int \<Rightarrow> string \<Rightarrow> error + ProcessInfoResult" where
  "getProcessInfo sl lib pid name limit0 sortBy =
     (let limit = effectiveLimit limit0 in
      if 0 <s pid
      then (case NewProcess lib pid of
              Inl err \<Rightarrow> Inl (Errorf (''failed to get process '' @ Itoa (sint pid) @ '': ''
                                       @ Error err))
            | Inr proc \<Rightarrow>
                (case getProcessDetails sl proc of
                   (info, Some err) \<Rightarrow>
                     Inl (Errorf (''failed to get process details: '' @ Error err))
                 | (info, None) \<Rightarrow> Inr \<lparr>Processes = [info], Count = 1\<rparr>))
      else (case ProcessesWithContext lib of
              Inl err \<Rightarrow> Inl (Errorf (''failed to list processes: '' @ Error err))
            | Inr procs \<Rightarrow>
                (let gathered = processLoop sl name limit procs [];
                     sorted = sortProcessesBy sl gathered sortBy;
                     list = (if int (length sorted) > limit then take (nat limit) sorted
                             else sorted)
                 in Inr \<lparr>Processes = list, Count = int (length list)\<rparr>)))"

subsection \<open>Sample data\<close>

text \<open>
  A strings library that is the real one on the key \<open>p\<close>, U+0130, \<open>d\<close> (in UTF-8 the bytes
  \<open>p\<close>, 0xC4, 0xB0, \<open>d\<close>), whose lower case is \<open>pid\<close>; its values elsewhere are not used.
\<close>

definition dottedKey :: string where
  "dottedKey = [CHR ''p'', CHR 0xC4, CHR 0xB0, CHR ''d'']"

definition tableStrings :: StringsLib where
  "tableStrings =
     \<lparr>MapToLower = (\<lambda>s. if s = dottedKey then ''pid'' else s),
      FieldsFuncIsSpace = (\<lambda>s. [s])\<rparr>"

text \<open>
  The struct literal \<^verbatim>\<open>ProcessInfo{PID: .., Name: .., CPUPercent: .., MemoryPercent: ..}\<close> of
  the repository's test of \<^verbatim>\<open>sortProcessesBy\<close>, and the three records of that test.
\<close>

definition testProcess :: "int32 \<Rightarrow> string \<Rightarrow> float \<Rightarrow> float \<Rightarrow> ProcessInfo" where
  "testProcess pid name cpu mem =
     \<lparr>PID = pid, Name = name, Status = [], CPUPercent = cpu, MemoryRSS = 0, MemoryVMS = 0,
      MemoryPercent = mem, CreateTime = 0, NumThreads = 0, Username = [], Cmdline = []\<rparr>"

definition testProcesses :: "ProcessInfo list" where
  "testProcesses =
     [testProcess 100 ''process_c'' (Num 15.5) (Num 10),
      testProcess 50 ''process_a'' (Num 25) (Num 20),
      testProcess 75 ''process_b'' (Num 5.5) (Num 30)]"

text \<open>Three records of which the second has no CPU percent that is a number.\<close>

definition nanProcesses :: "ProcessInfo list" where
  "nanProcesses =
     [testProcess 1 ''a'' (Num 1) (Num 1), testProcess 2 ''b'' NaN NaN,
      testProcess 3 ''c'' (Num 3) (Num 3)]"

text \<open>A process all of whose queries succeed, and one all of whose queries fail.\<close>

definition liveProcess :: "int32 \<Rightarrow> string \<Rightarrow> float \<Rightarrow> float \<Rightarrow> Process" where
  "liveProcess pid name cpu mem =
     \<lparr>Pid = pid, NameWithContext = (name, None), StatusWithContext = ([''S''], None),
      CPUPercentWithContext = (cpu, None),
      MemoryInfoWithContext = (Some \<lparr>mem_RSS = 4096, mem_VMS = 8192\<rparr>, None),
      MemoryPercentWithContext = (mem, None), CreateTimeWithContext = (0, None),
      NumThreadsWithContext = (1, None), UsernameWithContext = (''root'', None),
      CmdlineWithContext = (name, None)\<rparr>"

definition goneProcess :: "int32 \<Rightarrow> Process" where
  "goneProcess pid =
     (let e = Some (Errorf ''no such file or directory'') in
      \<lparr>Pid = pid, NameWithContext = ([], e), StatusWithContext = ([], e),
       CPUPercentWithContext = (Num 0, e), MemoryInfoWithContext = (None, e),
       MemoryPercentWithContext = (Num 0, e), CreateTimeWithContext = (0, e),
       NumThreadsWithContext = (0, e), UsernameWithContext = ([], e),
       CmdlineWithContext = ([], e)\<rparr>)"

definition ghostInfo :: "int32 \<Rightarrow> ProcessInfo" where
  "ghostInfo pid =
     \<lparr>PID = pid, Name = [], Status = [], CPUPercent = Num 0, MemoryRSS = 0, MemoryVMS = 0,
      MemoryPercent = Num 0, CreateTime = 0, NumThreads = 0, Username = [], Cmdline = []\<rparr>"

definition churnLib :: ProcessLib where
  "churnLib =
     \<lparr>NewProcess = (\<lambda>pid. Inl (Errorf ''process does not exist'')),
      ProcessesWithContext = Inr [liveProcess 1 ''init'' (Num 2) (Num 1), goneProcess 4242]\<rparr>"

definition threeProcs :: "Process list" where
  "threeProcs =
     [liveProcess 1 ''init'' (Num 2) (Num 1), liveProcess 7 ''sshd'' (Num 9) (Num 3),
      liveProcess 9 ''cron'' (Num 4) (Num 2)]"

definition threeLib :: ProcessLib where
  "threeLib =
     \<lparr>NewProcess = (\<lambda>pid. Inl (Errorf ''process does not exist'')),
      ProcessesWithContext = Inr threeProcs\<rparr>"

text \<open>Twelve processes, and 250 processes.\<close>

definition workers :: "nat \<Rightarrow> Process list" where
  "workers n = map (\<lambda>i. liveProcess (of_nat i) ''worker'' (Num 0) (Num 0)) [1..<Suc n]"

definition workersLib :: "nat \<Rightarrow> ProcessLib" where
  "workersLib n =
     \<lparr>NewProcess = (\<lambda>pid. Inl (Errorf ''process does not exist'')),
      ProcessesWithContext = Inr (workers n)\<rparr>"

text \<open>
  A \<^verbatim>\<open>cpu\<close> package whose usage sample is the window it was asked to sample, in
  nanoseconds.
\<close>

definition windowLib :: CPULib where
  "windowLib =
     \<lparr>PercentWithContext = (\<lambda>interval percpu. Inr [Num (real_of_int interval)]),
      InfoWithContext = Inr [],
      Counts = (\<lambda>logical. Inr 4),
      NumCPU = 4\<rparr>"

definition eth0 :: IOCountersStat where
  "eth0 = \<lparr>io_Name = ''eth0'', io_BytesSent = 10, io_BytesRecv = 20, io_PacketsSent = 1,
     io_PacketsRecv = 2, io_Errin = 0, io_Errout = 0, io_Dropin = 0, io_Dropout = 0\<rparr>"

definition lo :: IOCountersStat where
  "lo = \<lparr>io_Name = ''lo'', io_BytesSent = 5, io_BytesRecv = 5, io_PacketsSent = 1,
     io_PacketsRecv = 1, io_Errin = 0, io_Errout = 0, io_Dropin = 0, io_Dropout = 0\<rparr>"

definition rootUsage :: UsageStat where
  "rootUsage = \<lparr>usage_Fstype = ''ext4'', usage_Total = 1000, usage_Free = 400, usage_Used = 600,
     usage_UsedPercent = Num 60, usage_InodesTotal = 100, usage_InodesUsed = 10,
     usage_InodesFree = 90\<rparr>"

definition twoPartitions :: DiskLib where
  "twoPartitions =
     \<lparr>UsageWithContext = (\<lambda>path. if path = ''/'' then Inr rootUsage
                                  else Inl (Errorf ''permission denied'')),
      PartitionsWithContext =
        Inr [\<lparr>part_Device = ''/dev/sda1'', part_Mountpoint = ''/'', part_Fstype = ''ext4''\<rparr>,
             \<lparr>part_Device = ''/dev/sdb1'', part_Mountpoint = ''/mnt/x'', part_Fstype = ''xfs''\<rparr>]\<rparr>"

section \<open>HTTP adapter: requests\<close>

text \<open>
  A value of Go type \<^verbatim>\<open>interface{}\<close>, as far as the adapter builds and reads such values.
  A Go map is written as the list of its entries.
\<close>

datatype Value =
  VNil
  | VBool bool
  | VFloat64 real
  | VInt int
  | VString string
  | VSlice "Value list"
  | VMap "(string \<times> Value) list"

























section \<open>Theorems\<close>

subsection \<open>Runtime configuration\<close>

text \<open>
  C1, as stated, fails: the blob whose \<^verbatim>\<open>refreshInterval\<close> is 50 decodes and parses, and the
  stored refresh interval is the default 1000, not the nearer bound 100.
\<close>

theorem parseConfig_not_clamped:
  "DecodeString tableCodec blob50 = Inr json50
   \<and> Unmarshal tableCodec json50 = Inr \<lparr>RefreshInterval = 50, EnableDebug = True\<rparr>
   \<and> parseConfig tableCodec NewHTTPServer blob50
       = (\<lparr>config = \<lparr>RefreshInterval = 1000, EnableDebug = True\<rparr>\<rparr>, None)
   \<and> RefreshInterval (config (fst (parseConfig tableCodec NewHTTPServer blob50)))
       \<noteq> max 100 (min 10000 50)"
  by (simp add: parseConfig_def tableCodec_def NewHTTPServer_def blob50_def json50_def)

text \<open>
  C1, amended: for a blob that decodes and parses, \<^const>\<open>parseConfig\<close> reports no error and
  replaces the configuration; the refresh interval is the blob's when it lies in [100,10000] and
  the default 1000 otherwise, and the debug flag is the blob's.
\<close>

theorem parseConfig_fallback:
  assumes "DecodeString lib configParam = Inr decoded"
    and "Unmarshal lib decoded = Inr cfg"
  shows "parseConfig lib h configParam =
           (h\<lparr>config := \<lparr>RefreshInterval =
                 (if 100 \<le> RefreshInterval cfg \<and> RefreshInterval cfg \<le> 10000
                  then RefreshInterval cfg else 1000),
               EnableDebug = EnableDebug cfg\<rparr>\<rparr>, None)"
  using assms by (cases cfg) (simp add: parseConfig_def)

theorem parseConfig_fallback_witness:
  "DecodeString tableCodec blob250 = Inr json250
   \<and> Unmarshal tableCodec json250 = Inr \<lparr>RefreshInterval = 250, EnableDebug = True\<rparr>
   \<and> parseConfig tableCodec NewHTTPServer blob250
       = (\<lparr>config = \<lparr>RefreshInterval = 250, EnableDebug = True\<rparr>\<rparr>, None)"
proof -
  have d: "DecodeString tableCodec blob250 = Inr json250"
    by (simp add: tableCodec_def blob250_def blob50_def)
  have u: "Unmarshal tableCodec json250 = Inr \<lparr>RefreshInterval = 250, EnableDebug = True\<rparr>"
    by (simp add: tableCodec_def json250_def json50_def)
  show ?thesis
    using d u parseConfig_fallback [OF d u, of NewHTTPServer]
    by (simp add: NewHTTPServer_def)
qed

subsection \<open>CPU sampling interval\<close>

lemma samplingInterval_cases:
  "samplingInterval ms =
     (if ms \<le> 0 then 1000 * Millisecond
      else if ms < 100 then 100 * Millisecond
      else if ms > 10000 then 10000 * Millisecond
      else ms * Millisecond)"
  by (simp add: samplingInterval_def Second_def Let_def)

lemma samplingInterval_range:
  "100 * Millisecond \<le> samplingInterval ms \<and> samplingInterval ms \<le> 10000 * Millisecond"
  by (simp add: samplingInterval_cases Millisecond_def)

lemma getCPUInfo_sample_error:
  assumes "PercentWithContext lib (samplingInterval ms) perCPU = Inl e"
  shows "getCPUInfo lib perCPU ms = Inl (Errorf (''failed to get CPU usage: '' @ Error e))"
  using assms by (cases perCPU) (simp_all add: getCPUInfo_def)

lemma getCPUInfo_sample_usage:
  assumes "PercentWithContext lib (samplingInterval ms) perCPU = Inr usage"
    and "getCPUInfo lib perCPU ms = Inr info"
  shows "Usage info = usage"
proof (cases "InfoWithContext lib")
  case (Inl e)
  then show ?thesis using assms by (cases perCPU) (simp_all add: getCPUInfo_def)
next
  case (Inr infos)
  then show ?thesis
    using assms by (cases perCPU; cases infos) (auto simp: getCPUInfo_def Let_def)
qed

lemma getCPUInfo_sample_success:
  assumes "PercentWithContext lib (samplingInterval ms) perCPU = Inr usage"
    and "InfoWithContext lib = Inr infos"
  shows "\<exists>info. getCPUInfo lib perCPU ms = Inr info \<and> Usage info = usage"
  using assms by (cases perCPU; cases infos) (simp_all add: getCPUInfo_def Let_def)

text \<open>
  C5: for every \<^verbatim>\<open>interval_ms\<close>, \<^const>\<open>getCPUInfo\<close> samples the CPU usage over a window
  \<open>w\<close> between 100 and 10000 milliseconds: 100 ms for a positive value below 100, 10000 ms
  for a value above 10000, the value itself in between, and the default of one second (1000 ms)
  for a non-positive value. That the sample is taken over \<open>w\<close> shows in the result, for every
  library: an error of the usage query for \<open>w\<close> is the error of the call, and the usage values
  of a successful call are those that the query returns for \<open>w\<close>.
\<close>

theorem getCPUInfo_window:
  "\<exists>w. w = (if ms \<le> 0 then 1000 * Millisecond
            else if ms < 100 then 100 * Millisecond
            else if ms > 10000 then 10000 * Millisecond
            else ms * Millisecond)
     \<and> 100 * Millisecond \<le> w \<and> w \<le> 10000 * Millisecond
     \<and> (\<forall>e. PercentWithContext lib w perCPU = Inl e \<longrightarrow>
            getCPUInfo lib perCPU ms = Inl (Errorf (''failed to get CPU usage: '' @ Error e)))
     \<and> (\<forall>usage info. PercentWithContext lib w perCPU = Inr usage
            \<and> getCPUInfo lib perCPU ms = Inr info \<longrightarrow> Usage info = usage)
     \<and> (\<forall>usage infos. PercentWithContext lib w perCPU = Inr usage
            \<and> InfoWithContext lib = Inr infos \<longrightarrow>
            (\<exists>info. getCPUInfo lib perCPU ms = Inr info \<and> Usage info = usage))"
proof (intro exI [of _ "samplingInterval ms"] conjI allI impI)
  show "samplingInterval ms =
     (if ms \<le> 0 then 1000 * Millisecond
      else if ms < 100 then 100 * Millisecond
      else if ms > 10000 then 10000 * Millisecond
      else ms * Millisecond)"
    by (rule samplingInterval_cases)
  show "100 * Millisecond \<le> samplingInterval ms" "samplingInterval ms \<le> 10000 * Millisecond"
    using samplingInterval_range by simp_all
next
  fix e assume "PercentWithContext lib (samplingInterval ms) perCPU = Inl e"
  then show "getCPUInfo lib perCPU ms = Inl (Errorf (''failed to get CPU usage: '' @ Error e))"
    by (rule getCPUInfo_sample_error)
next
  fix usage info
  assume "PercentWithContext lib (samplingInterval ms) perCPU = Inr usage
          \<and> getCPUInfo lib perCPU ms = Inr info"
  then show "Usage info = usage"
    using getCPUInfo_sample_usage by blast
next
  fix usage infos
  assume "PercentWithContext lib (samplingInterval ms) perCPU = Inr usage
          \<and> InfoWithContext lib = Inr infos"
  then show "\<exists>info. getCPUInfo lib perCPU ms = Inr info \<and> Usage info = usage"
    using getCPUInfo_sample_success by blast
qed

lemma windowLib_sample: "PercentWithContext windowLib w p = Inr [Num (real_of_int w)]"
  by (simp add: windowLib_def)

lemma windowLib_info: "InfoWithContext windowLib = Inr []"
  by (simp add: windowLib_def)

theorem getCPUInfo_window_witness:
  "(\<exists>info. getCPUInfo windowLib False 1 = Inr info \<and> Usage info = [Num (100 * 1000000)])
   \<and> (\<exists>info. getCPUInfo windowLib True 1000000 = Inr info \<and> Usage info = [Num (10000 * 1000000)])
   \<and> (\<exists>info. getCPUInfo windowLib False 0 = Inr info \<and> Usage info = [Num (1000 * 1000000)])
   \<and> (\<exists>info. getCPUInfo windowLib False 250 = Inr info \<and> Usage info = [Num (250 * 1000000)])"
  using getCPUInfo_window [of 1 windowLib False] getCPUInfo_window [of 1000000 windowLib True]
    getCPUInfo_window [of 0 windowLib False] getCPUInfo_window [of 250 windowLib False]
  by (simp add: windowLib_sample windowLib_info Millisecond_def)

subsection \<open>Disk information\<close>

lemma partitionLoop_eq:
  "partitionLoop lib parts disks =
     disks @ map (\<lambda>p. partitionRecord p (projr (UsageWithContext lib (part_Mountpoint p))))
               (filter (\<lambda>p. \<not> isl (UsageWithContext lib (part_Mountpoint p))) parts)"
  by (induction parts arbitrary: disks) (auto split: sum.splits)

text \<open>
  C6: with a non-empty path whose usage query succeeds, \<^const>\<open>getDiskInfo\<close> succeeds with
  exactly one record; its mountpoint is the given path and its device is \<open>''N/A''\<close>.
\<close>

theorem getDiskInfo_path:
  assumes "path \<noteq> []" and "UsageWithContext lib path = Inr u"
  shows "\<exists>d. getDiskInfo lib path = Inr \<lparr>Disks = [d]\<rparr>
             \<and> Mountpoint d = path \<and> Device d = ''N/A''"
  using assms by (simp add: getDiskInfo_def pathRecord_def)

theorem getDiskInfo_path_witness:
  "getDiskInfo twoPartitions ''/'' = Inr \<lparr>Disks = [pathRecord ''/'' rootUsage]\<rparr>
   \<and> Mountpoint (pathRecord ''/'' rootUsage) = ''/''
   \<and> Device (pathRecord ''/'' rootUsage) = ''N/A''"
proof -
  have ne: "''/'' \<noteq> []" by simp
  have u: "UsageWithContext twoPartitions ''/'' = Inr rootUsage"
    by (simp add: twoPartitions_def)
  from getDiskInfo_path [OF ne u] show ?thesis
    by (auto simp: getDiskInfo_def u pathRecord_def)
qed

text \<open>
  C7: with an empty path and a partition list, \<^const>\<open>getDiskInfo\<close> succeeds; its records are,
  in order, those of the partitions whose usage query succeeds, one for each, and the partitions
  whose usage query fails contribute nothing.
\<close>

theorem getDiskInfo_all:
  assumes "PartitionsWithContext lib = Inr parts"
  shows "getDiskInfo lib [] =
           Inr \<lparr>Disks = map (\<lambda>p. partitionRecord p (projr (UsageWithContext lib (part_Mountpoint p))))
                           (filter (\<lambda>p. \<not> isl (UsageWithContext lib (part_Mountpoint p))) parts)\<rparr>"
  using assms by (simp add: getDiskInfo_def partitionLoop_eq)

theorem getDiskInfo_all_witness:
  "getDiskInfo twoPartitions [] =
     Inr \<lparr>Disks = [partitionRecord
        \<lparr>part_Device = ''/dev/sda1'', part_Mountpoint = ''/'', part_Fstype = ''ext4''\<rparr> rootUsage]\<rparr>"
proof -
  have p: "PartitionsWithContext twoPartitions =
        Inr [\<lparr>part_Device = ''/dev/sda1'', part_Mountpoint = ''/'', part_Fstype = ''ext4''\<rparr>,
             \<lparr>part_Device = ''/dev/sdb1'', part_Mountpoint = ''/mnt/x'', part_Fstype = ''xfs''\<rparr>]"
    by (simp add: twoPartitions_def)
  show ?thesis
    using getDiskInfo_all [OF p] by (simp add: twoPartitions_def)
qed

subsection \<open>Network information\<close>

lemma interfaceLoop_eq:
  "interfaceLoop iface stats out =
     out @ map interfaceRecord (filter (\<lambda>s. iface = [] \<or> io_Name s = iface) stats)"
  by (induction stats arbitrary: out) auto

text \<open>
  C8: when the counter query succeeds, \<^const>\<open>getNetworkInfo\<close> succeeds. With an empty filter it
  returns the record of every interface; with a non-empty filter it returns the records of
  exactly the interfaces whose name is equal to the filter, byte for byte, so each returned
  record carries the requested name, and when no interface has that name the list is empty.
\<close>

theorem getNetworkInfo_filter:
  "\<exists>res. getNetworkInfo (Inr stats) iface = Inr res
     \<and> Interfaces res = map interfaceRecord
          (if iface = [] then stats else filter (\<lambda>s. io_Name s = iface) stats)
     \<and> (iface \<noteq> [] \<longrightarrow> (\<forall>r \<in> set (Interfaces res). Interface r = iface))
     \<and> (iface \<noteq> [] \<and> iface \<notin> io_Name ` set stats \<longrightarrow> Interfaces res = [])"
  by (auto simp: getNetworkInfo_def interfaceLoop_eq interfaceRecord_def filter_empty_conv)

theorem getNetworkInfo_filter_witness:
  "getNetworkInfo (Inr [lo, eth0]) ''eth0'' = Inr \<lparr>Interfaces = [interfaceRecord eth0]\<rparr>
   \<and> getNetworkInfo (Inr [lo, eth0]) ''wlan0'' = Inr \<lparr>Interfaces = []\<rparr>
   \<and> getNetworkInfo (Inr [lo, eth0]) [] = Inr \<lparr>Interfaces = [interfaceRecord lo, interfaceRecord eth0]\<rparr>"
  using getNetworkInfo_filter [of "[lo, eth0]" "''eth0''"]
    getNetworkInfo_filter [of "[lo, eth0]" "''wlan0''"]
    getNetworkInfo_filter [of "[lo, eth0]" "[]"]
  by (auto simp: lo_def eth0_def)

subsection \<open>Sorting the process records\<close>

lemma mset_insertLeft: "mset (insertLeft lt x front) = add_mset x (mset front)"
  by (induction front) auto

lemma set_insertLeft: "set (insertLeft lt x front) = insert x (set front)"
  using mset_insertLeft [of lt x front] by (metis set_mset_add_mset_insert set_mset_mset)

lemma sorted_insertLeft:
  assumes "\<And>a b. a \<in> insert x (set front) \<Longrightarrow> b \<in> insert x (set front) \<Longrightarrow> lt a b \<longleftrightarrow> f a < f b"
    and "sorted_wrt (\<lambda>a b. f b \<le> (f a :: 'k :: linorder)) front"
  shows "sorted_wrt (\<lambda>a b. f b \<le> f a) (insertLeft lt x front)"
  using assms
proof (induction front)
  case Nil
  then show ?case by simp
next
  case (Cons y front)
  show ?case
  proof (cases "lt x y")
    case True
    then have xy: "f x < f y" using Cons.prems(1) by simp
    have "sorted_wrt (\<lambda>a b. f b \<le> f a) (insertLeft lt x front)"
    proof (rule Cons.IH)
      show "lt a b \<longleftrightarrow> f a < f b"
        if "a \<in> insert x (set front)" "b \<in> insert x (set front)" for a b
        using that Cons.prems(1) [of a b] by auto
      show "sorted_wrt (\<lambda>a b. f b \<le> f a) front"
        using Cons.prems(2) by simp
    qed
    then show ?thesis
      using True xy Cons.prems(2) by (auto simp: set_insertLeft)
  next
    case False
    then have "f y \<le> f x" using Cons.prems(1) [of x y] by auto
    then show ?thesis using False Cons.prems(2) by auto
  qed
qed

lemma filter_insertLeft:
  assumes "\<And>y. y \<in> set front \<Longrightarrow> lt x y \<Longrightarrow> f x \<noteq> f y"
  shows "filter (\<lambda>z. f z = k) (rev (insertLeft lt x front))
         = filter (\<lambda>z. f z = k) (rev front) @ filter (\<lambda>z. f z = k) [x]"
  using assms by (induction front) auto

lemma mset_foldl_insertLeft:
  "mset (foldl (\<lambda>front x. insertLeft lt x front) front xs) = mset front + mset xs"
  by (induction xs arbitrary: front) (simp_all add: mset_insertLeft)

lemma sorted_foldl_insertLeft:
  assumes "\<And>a b. a \<in> set front \<union> set xs \<Longrightarrow> b \<in> set front \<union> set xs \<Longrightarrow> lt a b \<longleftrightarrow> f a < f b"
    and "sorted_wrt (\<lambda>a b. f b \<le> (f a :: 'k :: linorder)) front"
  shows "sorted_wrt (\<lambda>a b. f b \<le> f a) (foldl (\<lambda>front x. insertLeft lt x front) front xs)"
  using assms
proof (induction xs arbitrary: front)
  case Nil
  then show ?case by simp
next
  case (Cons x xs)
  have s: "sorted_wrt (\<lambda>a b. f b \<le> f a) (insertLeft lt x front)"
    by (rule sorted_insertLeft) (use Cons.prems in auto)
  have "sorted_wrt (\<lambda>a b. f b \<le> f a)
          (foldl (\<lambda>front x. insertLeft lt x front) (insertLeft lt x front) xs)"
    by (rule Cons.IH) (use Cons.prems(1) s in \<open>auto simp: set_insertLeft\<close>)
  then show ?case by simp
qed

lemma filter_foldl_insertLeft:
  assumes "\<And>a b. a \<in> set front \<union> set xs \<Longrightarrow> b \<in> set front \<union> set xs \<Longrightarrow> lt a b \<Longrightarrow> f a \<noteq> f b"
  shows "filter (\<lambda>z. f z = k) (rev (foldl (\<lambda>front x. insertLeft lt x front) front xs))
         = filter (\<lambda>z. f z = k) (rev front) @ filter (\<lambda>z. f z = k) xs"
  using assms
proof (induction xs arbitrary: front)
  case Nil
  then show ?case by simp
next
  case (Cons x xs)
  have 1: "filter (\<lambda>z. f z = k) (rev (insertLeft lt x front))
           = filter (\<lambda>z. f z = k) (rev front) @ filter (\<lambda>z. f z = k) [x]"
    by (rule filter_insertLeft) (use Cons.prems in auto)
  have 2: "filter (\<lambda>z. f z = k)
             (rev (foldl (\<lambda>front x. insertLeft lt x front) (insertLeft lt x front) xs))
           = filter (\<lambda>z. f z = k) (rev (insertLeft lt x front)) @ filter (\<lambda>z. f z = k) xs"
    by (rule Cons.IH) (use Cons.prems in \<open>auto simp: set_insertLeft\<close>)
  show ?case using 1 2 by simp
qed

lemma mset_SliceStable: "mset (SliceStable lt xs) = mset xs"
  by (simp add: SliceStable_def mset_foldl_insertLeft)

lemma set_SliceStable: "set (SliceStable lt xs) = set xs"
  using mset_SliceStable [of lt xs] by (metis set_mset_mset)

lemma length_SliceStable: "length (SliceStable lt xs) = length xs"
  using mset_SliceStable [of lt xs] by (metis size_mset)

lemma sorted_SliceStable:
  assumes "\<And>a b. a \<in> set xs \<Longrightarrow> b \<in> set xs \<Longrightarrow> lt a b \<longleftrightarrow> f a < (f b :: 'k :: linorder)"
  shows "sorted_wrt (\<lambda>a b. f a \<le> f b) (SliceStable lt xs)"
proof -
  have "sorted_wrt (\<lambda>a b. f b \<le> f a) (foldl (\<lambda>front x. insertLeft lt x front) [] xs)"
    by (rule sorted_foldl_insertLeft) (use assms in auto)
  then show ?thesis by (simp add: SliceStable_def sorted_wrt_rev)
qed

lemma stable_SliceStable:
  assumes "\<And>a b. a \<in> set xs \<Longrightarrow> b \<in> set xs \<Longrightarrow> lt a b \<longleftrightarrow> f a < (f b :: 'k :: linorder)"
  shows "filter (\<lambda>z. f z = k) (SliceStable lt xs) = filter (\<lambda>z. f z = k) xs"
proof -
  have "filter (\<lambda>z. f z = k) (rev (foldl (\<lambda>front x. insertLeft lt x front) [] xs))
        = filter (\<lambda>z. f z = k) (rev []) @ filter (\<lambda>z. f z = k) xs"
    by (rule filter_foldl_insertLeft) (use assms in auto)
  then show ?thesis by (simp add: SliceStable_def)
qed

lemma float_greater_rank:
  "a \<noteq> NaN \<Longrightarrow> b \<noteq> NaN \<Longrightarrow> float_greater a b \<longleftrightarrow> descendingRank a < descendingRank b"
  by (cases a; cases b) (simp_all add: float_greater_def)

lemma float_ge_rank:
  "a \<noteq> NaN \<Longrightarrow> b \<noteq> NaN \<Longrightarrow> float_ge a b \<longleftrightarrow> descendingRank a \<le> descendingRank b"
  by (cases a; cases b) (auto simp: float_ge_def)

lemma descendingRank_eq: "descendingRank a = descendingRank b \<longleftrightarrow> a = b"
  by (cases a; cases b) simp_all

lemma sorted_descending:
  assumes "\<forall>p \<in> set ps. g p \<noteq> NaN"
  shows "sorted_wrt (\<lambda>a b. float_ge (g a) (g b)) (SliceStable (\<lambda>a b. float_greater (g a) (g b)) ps)"
proof -
  have "sorted_wrt (\<lambda>a b. descendingRank (g a) \<le> descendingRank (g b))
          (SliceStable (\<lambda>a b. float_greater (g a) (g b)) ps)"
    by (rule sorted_SliceStable) (use assms in \<open>simp add: float_greater_rank\<close>)
  then show ?thesis
    by (rule sorted_wrt_mono_rel [rotated]) (use assms in \<open>simp add: float_ge_rank set_SliceStable\<close>)
qed

lemma stable_descending:
  assumes "\<forall>p \<in> set ps. g p \<noteq> NaN"
  shows "filter (\<lambda>p. g p = k) (SliceStable (\<lambda>a b. float_greater (g a) (g b)) ps)
         = filter (\<lambda>p. g p = k) ps"
  using stable_SliceStable [of ps "\<lambda>a b. float_greater (g a) (g b)" "\<lambda>p. descendingRank (g p)"
      "descendingRank k"] assms
  by (simp add: float_greater_rank descendingRank_eq)

lemma sorted_pid:
  "sorted_wrt (\<lambda>a b. PID a \<le>s PID b) (SliceStable (\<lambda>a b. PID a <s PID b) ps)"
  using sorted_SliceStable [of ps "\<lambda>a b. PID a <s PID b" "\<lambda>p. sint (PID p)"]
  by (simp add: word_sless_alt word_sle_eq)

lemma stable_pid:
  "filter (\<lambda>p. PID p = k) (SliceStable (\<lambda>a b. PID a <s PID b) ps) = filter (\<lambda>p. PID p = k) ps"
  using stable_SliceStable [of ps "\<lambda>a b. PID a <s PID b" "\<lambda>p. sint (PID p)" "sint k"]
  by (simp add: word_sless_alt word_eq_iff_signed [symmetric])

lemma sorted_name:
  "sorted_wrt (\<lambda>a b. Name a \<le> Name b) (SliceStable (\<lambda>a b. Name a < Name b) ps)"
  by (rule sorted_SliceStable) simp

lemma stable_name:
  "filter (\<lambda>p. Name p = k) (SliceStable (\<lambda>a b. Name a < Name b) ps) = filter (\<lambda>p. Name p = k) ps"
  by (rule stable_SliceStable) simp

lemma mset_sortProcessesBy: "mset (sortProcessesBy sl ps sortBy) = mset ps"
  by (simp add: sortProcessesBy_def mset_SliceStable Let_def)

lemma length_sortProcessesBy: "length (sortProcessesBy sl ps sortBy) = length ps"
  using mset_sortProcessesBy [of sl ps sortBy] by (metis size_mset)


text \<open>
  C4, as stated, fails on a list with a NaN: every comparison with NaN is false, so the three
  records with CPU percent 1, NaN, 3 (and memory percent 1, NaN, 3) stay as they are under the
  keys \<open>cpu\<close> and \<open>memory\<close>, and the result is not non-increasing.
\<close>

theorem sortProcessesBy_nan:
  "sortProcessesBy tableStrings nanProcesses ''cpu'' = nanProcesses
   \<and> \<not> sorted_wrt (\<lambda>a b. float_ge (CPUPercent a) (CPUPercent b))
         (sortProcessesBy tableStrings nanProcesses ''cpu'')
   \<and> sortProcessesBy tableStrings nanProcesses ''memory'' = nanProcesses
   \<and> \<not> sorted_wrt (\<lambda>a b. float_ge (MemoryPercent a) (MemoryPercent b))
         (sortProcessesBy tableStrings nanProcesses ''memory'')"
  by code_simp

text \<open>
  C4, amended: \<^const>\<open>sortProcessesBy\<close> rearranges the records (same records, same
  multiplicities). The key is matched after \<^verbatim>\<open>strings.ToLower\<close>. With key \<open>pid\<close> the
  result is non-decreasing by pid (as a signed number) and with \<open>name\<close> non-decreasing by name
  in the byte-wise lexicographic order, for every list. With \<open>memory\<close> it is non-increasing by
  memory percent when no memory percent in the list is NaN; with any key that is none of the
  three, such as \<open>cpu\<close> or the empty key, it is non-increasing by CPU percent when no CPU
  percent in the list is NaN. In each of these cases the sort is stable: the records with any
  one value of the sort field appear in their original order.
\<close>

theorem sortProcessesBy_ordered:
  "mset (sortProcessesBy sl ps sortBy) = mset ps
   \<and> (ToLower sl sortBy = ''pid'' \<longrightarrow>
        sorted_wrt (\<lambda>a b. PID a \<le>s PID b) (sortProcessesBy sl ps sortBy)
        \<and> (\<forall>k. filter (\<lambda>p. PID p = k) (sortProcessesBy sl ps sortBy) = filter (\<lambda>p. PID p = k) ps))
   \<and> (ToLower sl sortBy = ''name'' \<longrightarrow>
        sorted_wrt (\<lambda>a b. Name a \<le> Name b) (sortProcessesBy sl ps sortBy)
        \<and> (\<forall>k. filter (\<lambda>p. Name p = k) (sortProcessesBy sl ps sortBy) = filter (\<lambda>p. Name p = k) ps))
   \<and> (ToLower sl sortBy = ''memory'' \<and> (\<forall>p \<in> set ps. MemoryPercent p \<noteq> NaN) \<longrightarrow>
        sorted_wrt (\<lambda>a b. float_ge (MemoryPercent a) (MemoryPercent b)) (sortProcessesBy sl ps sortBy)
        \<and> (\<forall>k. filter (\<lambda>p. MemoryPercent p = k) (sortProcessesBy sl ps sortBy)
               = filter (\<lambda>p. MemoryPercent p = k) ps))
   \<and> (ToLower sl sortBy \<notin> {''pid'', ''name'', ''memory''} \<and> (\<forall>p \<in> set ps. CPUPercent p \<noteq> NaN) \<longrightarrow>
        sorted_wrt (\<lambda>a b. float_ge (CPUPercent a) (CPUPercent b)) (sortProcessesBy sl ps sortBy)
        \<and> (\<forall>k. filter (\<lambda>p. CPUPercent p = k) (sortProcessesBy sl ps sortBy)
               = filter (\<lambda>p. CPUPercent p = k) ps))"
proof (intro conjI impI)
  show "mset (sortProcessesBy sl ps sortBy) = mset ps"
    by (rule mset_sortProcessesBy)
next
  assume k: "ToLower sl sortBy = ''pid''"
  then have e: "sortProcessesBy sl ps sortBy = SliceStable (\<lambda>a b. PID a <s PID b) ps"
    by (simp add: sortProcessesBy_def)
  show "sorted_wrt (\<lambda>a b. PID a \<le>s PID b) (sortProcessesBy sl ps sortBy)"
    by (simp only: e sorted_pid)
  show "\<forall>k. filter (\<lambda>p. PID p = k) (sortProcessesBy sl ps sortBy) = filter (\<lambda>p. PID p = k) ps"
    by (simp only: e stable_pid) simp
next
  assume k: "ToLower sl sortBy = ''name''"
  then have e: "sortProcessesBy sl ps sortBy = SliceStable (\<lambda>a b. Name a < Name b) ps"
    by (simp add: sortProcessesBy_def)
  show "sorted_wrt (\<lambda>a b. Name a \<le> Name b) (sortProcessesBy sl ps sortBy)"
    by (simp only: e sorted_name)
  show "\<forall>k. filter (\<lambda>p. Name p = k) (sortProcessesBy sl ps sortBy) = filter (\<lambda>p. Name p = k) ps"
    by (simp only: e stable_name) simp
next
  assume "ToLower sl sortBy = ''memory'' \<and> (\<forall>p \<in> set ps. MemoryPercent p \<noteq> NaN)"
  then have e: "sortProcessesBy sl ps sortBy
        = SliceStable (\<lambda>a b. float_greater (MemoryPercent a) (MemoryPercent b)) ps"
    and n: "\<forall>p \<in> set ps. MemoryPercent p \<noteq> NaN"
    by (simp_all add: sortProcessesBy_def)
  show "sorted_wrt (\<lambda>a b. float_ge (MemoryPercent a) (MemoryPercent b)) (sortProcessesBy sl ps sortBy)"
    using sorted_descending [OF n] by (simp only: e)
  show "\<forall>k. filter (\<lambda>p. MemoryPercent p = k) (sortProcessesBy sl ps sortBy)
            = filter (\<lambda>p. MemoryPercent p = k) ps"
    using stable_descending [OF n] by (simp only: e) simp
next
  assume "ToLower sl sortBy \<notin> {''pid'', ''name'', ''memory''} \<and> (\<forall>p \<in> set ps. CPUPercent p \<noteq> NaN)"
  then have e: "sortProcessesBy sl ps sortBy
        = SliceStable (\<lambda>a b. float_greater (CPUPercent a) (CPUPercent b)) ps"
    and n: "\<forall>p \<in> set ps. CPUPercent p \<noteq> NaN"
    by (simp_all add: sortProcessesBy_def)
  show "sorted_wrt (\<lambda>a b. float_ge (CPUPercent a) (CPUPercent b)) (sortProcessesBy sl ps sortBy)"
    using sorted_descending [OF n] by (simp only: e)
  show "\<forall>k. filter (\<lambda>p. CPUPercent p = k) (sortProcessesBy sl ps sortBy)
            = filter (\<lambda>p. CPUPercent p = k) ps"
    using stable_descending [OF n] by (simp only: e) simp
qed

lemma isASCII_literals:
  "isASCII ''pid''" "isASCII ''name''" "isASCII ''memory''" "isASCII []" "isASCII ''cpu''"
  "isASCII ''PID''" "isASCII ''Memory''"
  by (simp_all add: isASCII_def)

lemma ToLower_literals:
  "ToLower sl ''pid'' = ''pid''" "ToLower sl ''name'' = ''name''"
  "ToLower sl ''memory'' = ''memory''" "ToLower sl [] = []" "ToLower sl ''cpu'' = ''cpu''"
  "ToLower sl ''PID'' = ''pid''" "ToLower sl ''Memory'' = ''memory''"
  by (simp_all add: ToLower_def isASCII_literals lowerByte_def char_of_def bit_simps)

lemma testProcesses_no_nan: "\<forall>p \<in> set testProcesses. MemoryPercent p \<noteq> NaN \<and> CPUPercent p \<noteq> NaN"
  by (simp add: testProcesses_def testProcess_def)

theorem sortProcessesBy_ordered_witness:
  "ToLower tableStrings ''pid'' = ''pid'' \<and> ToLower tableStrings ''name'' = ''name''
   \<and> ToLower tableStrings ''memory'' = ''memory''
   \<and> ToLower tableStrings [] \<notin> {''pid'', ''name'', ''memory''}
   \<and> map MemoryPercent testProcesses = [Num 10, Num 20, Num 30]
   \<and> map CPUPercent testProcesses = [Num 15.5, Num 25, Num 5.5]
   \<and> sorted_wrt (\<lambda>a b. PID a \<le>s PID b) (sortProcessesBy tableStrings testProcesses ''pid'')
   \<and> sorted_wrt (\<lambda>a b. Name a \<le> Name b) (sortProcessesBy tableStrings testProcesses ''name'')
   \<and> sorted_wrt (\<lambda>a b. float_ge (MemoryPercent a) (MemoryPercent b))
        (sortProcessesBy tableStrings testProcesses ''memory'')
   \<and> sorted_wrt (\<lambda>a b. float_ge (CPUPercent a) (CPUPercent b))
        (sortProcessesBy tableStrings testProcesses [])"
proof -
  have p: "ToLower tableStrings ''pid'' = ''pid''" by (rule ToLower_literals)
  have n: "ToLower tableStrings ''name'' = ''name''" by (rule ToLower_literals)
  have m: "ToLower tableStrings ''memory'' = ''memory''" by (rule ToLower_literals)
  have c: "ToLower tableStrings [] \<notin> {''pid'', ''name'', ''memory''}"
    by (simp add: ToLower_literals)
  have nm: "\<forall>p \<in> set testProcesses. MemoryPercent p \<noteq> NaN"
    and nc: "\<forall>p \<in> set testProcesses. CPUPercent p \<noteq> NaN"
    using testProcesses_no_nan by blast+
  have 1: "sorted_wrt (\<lambda>a b. PID a \<le>s PID b) (sortProcessesBy tableStrings testProcesses ''pid'')"
    using sortProcessesBy_ordered [of tableStrings testProcesses "''pid''"] p by blast
  have 2: "sorted_wrt (\<lambda>a b. Name a \<le> Name b) (sortProcessesBy tableStrings testProcesses ''name'')"
    using sortProcessesBy_ordered [of tableStrings testProcesses "''name''"] n by blast
  have 3: "sorted_wrt (\<lambda>a b. float_ge (MemoryPercent a) (MemoryPercent b))
        (sortProcessesBy tableStrings testProcesses ''memory'')"
    using sortProcessesBy_ordered [of tableStrings testProcesses "''memory''"] m nm by blast
  have 4: "sorted_wrt (\<lambda>a b. float_ge (CPUPercent a) (CPUPercent b))
        (sortProcessesBy tableStrings testProcesses [])"
    using sortProcessesBy_ordered [of tableStrings testProcesses "[]"] c nc by blast
  have vm: "map MemoryPercent testProcesses = [Num 10, Num 20, Num 30]"
    and vc: "map CPUPercent testProcesses = [Num 15.5, Num 25, Num 5.5]"
    by (simp_all add: testProcesses_def testProcess_def)
  show ?thesis using p n m c vm vc 1 2 3 4 by blast
qed

subsection \<open>Sort keys and letter case\<close>

lemma lowerByte_idem: "lowerByte (lowerByte c) = lowerByte c"
  by (auto simp: lowerByte_def Let_def)

lemma lowerByte_ascii: "(of_char c :: nat) < 128 \<Longrightarrow> (of_char (lowerByte c) :: nat) < 128"
  by (auto simp: lowerByte_def Let_def)

lemma isASCII_lower: "isASCII s \<Longrightarrow> isASCII (map lowerByte s)"
  by (induction s) (simp_all add: isASCII_def lowerByte_ascii)

lemma ToLower_idem_ascii: "isASCII s \<Longrightarrow> ToLower sl (ToLower sl s) = ToLower sl s"
  by (simp add: ToLower_def isASCII_lower lowerByte_idem)

text \<open>
  C10: sorting with a key \<open>s\<close> gives the same list as sorting with \<^verbatim>\<open>strings.ToLower\<close> of
  \<open>s\<close>; in particular the keys \<open>PID\<close> and \<open>Memory\<close> select the orderings by pid and by
  memory percent. For a key that is all ASCII this is proved outright. For any other key the
  lower-case form comes from the Unicode routine of the library, of which the proof uses one
  fact: lowering the lower-case form of \<open>s\<close> again does not change it.
\<close>

theorem sortProcessesBy_case_insensitive:
  assumes "\<not> isASCII s \<Longrightarrow> ToLower sl (ToLower sl s) = ToLower sl s"
  shows "sortProcessesBy sl ps s = sortProcessesBy sl ps (ToLower sl s)
   \<and> sortProcessesBy sl ps ''PID'' = SliceStable (\<lambda>a b. PID a <s PID b) ps
   \<and> sortProcessesBy sl ps ''Memory''
       = SliceStable (\<lambda>a b. float_greater (MemoryPercent a) (MemoryPercent b)) ps"
proof -
  have "ToLower sl (ToLower sl s) = ToLower sl s"
    using assms ToLower_idem_ascii by blast
  then show ?thesis
    by (simp add: sortProcessesBy_def ToLower_literals)
qed

lemma dottedKey_lower: "\<not> isASCII dottedKey" "ToLower tableStrings dottedKey = ''pid''"
  by (simp_all add: ToLower_def isASCII_def dottedKey_def tableStrings_def)

theorem sortProcessesBy_case_insensitive_witness:
  "\<not> isASCII dottedKey
   \<and> ToLower tableStrings (ToLower tableStrings dottedKey) = ToLower tableStrings dottedKey
   \<and> sortProcessesBy tableStrings testProcesses dottedKey
       = sortProcessesBy tableStrings testProcesses ''pid''
   \<and> sortProcessesBy tableStrings testProcesses ''Name''
       = sortProcessesBy tableStrings testProcesses ''name''"
proof -
  have i: "ToLower tableStrings (ToLower tableStrings dottedKey) = ToLower tableStrings dottedKey"
    by (simp add: dottedKey_lower ToLower_literals)
  have a: "isASCII ''Name''" by (simp add: isASCII_def)
  have l: "ToLower tableStrings ''Name'' = ''name''"
    by (simp add: ToLower_def a lowerByte_def char_of_def bit_simps)
  show ?thesis
    using sortProcessesBy_case_insensitive [of dottedKey tableStrings testProcesses, OF i]
      sortProcessesBy_case_insensitive [of "''Name''" tableStrings testProcesses] a
    by (simp add: dottedKey_lower i l ToLower_literals)
qed

subsection \<open>The result limit\<close>

lemma effectiveLimit_cases:
  "effectiveLimit limit = (if limit \<le> 0 then 10 else if limit > 200 then 200 else limit)"
  by (simp add: effectiveLimit_def Let_def)

lemma effectiveLimit_range: "1 \<le> effectiveLimit limit \<and> effectiveLimit limit \<le> 200"
  by (simp add: effectiveLimit_cases)

lemma getProcessDetails_no_error: "snd (getProcessDetails sl proc) = None"
  by (simp add: getProcessDetails_def Let_def)

lemma getProcessDetails_pair: "getProcessDetails sl proc = (fst (getProcessDetails sl proc), None)"
  using getProcessDetails_no_error [of sl proc] by (cases "getProcessDetails sl proc") simp

lemma length_processLoop:
  assumes "int (length list) < L * 2"
  shows "int (length (processLoop sl name L procs list)) =
           min (int (length list)
                + int (length (filter (\<lambda>p. \<not> filteredOut sl name (fst (getProcessDetails sl p))) procs)))
               (L * 2)"
  using assms
proof (induction procs arbitrary: list)
  case Nil
  then show ?case by simp
next
  case (Cons p procs)
  let ?info = "fst (getProcessDetails sl p)"
  have d: "getProcessDetails sl p = (?info, None)" by (rule getProcessDetails_pair)
  show ?case
  proof (cases "filteredOut sl name ?info")
    case True
    have "processLoop sl name L (p # procs) list = processLoop sl name L procs list"
      by (subst processLoop.simps, subst d) (simp add: True)
    then show ?thesis using Cons.IH [OF Cons.prems] True by simp
  next
    case False
    show ?thesis
    proof (cases "int (length (list @ [?info])) \<ge> L * 2")
      case True
      have "processLoop sl name L (p # procs) list = list @ [?info]"
        by (subst processLoop.simps, subst d) (use False True in \<open>simp add: Let_def\<close>)
      then show ?thesis using True False Cons.prems by simp
    next
      case nf: False
      have "processLoop sl name L (p # procs) list = processLoop sl name L procs (list @ [?info])"
        by (subst processLoop.simps, subst d) (use False nf in \<open>simp add: Let_def\<close>)
      moreover have "int (length (list @ [?info])) < L * 2" using nf by simp
      ultimately show ?thesis using Cons.IH [of "list @ [?info]"] False by simp
    qed
  qed
qed

lemma getProcessInfo_enumeration:
  assumes "\<not> 0 <s pid" and "ProcessesWithContext lib = Inr procs"
  shows "\<exists>r. getProcessInfo sl lib pid name limit sortBy = Inr r
          \<and> Count r = int (length (Processes r))
          \<and> int (length (Processes r)) =
              min (int (length (filter (\<lambda>p. \<not> filteredOut sl name (fst (getProcessDetails sl p))) procs)))
                  (effectiveLimit limit)"
proof -
  let ?L = "effectiveLimit limit"
  let ?g = "processLoop sl name ?L procs []"
  let ?s = "sortProcessesBy sl ?g sortBy"
  let ?list = "if int (length ?s) > ?L then take (nat ?L) ?s else ?s"
  let ?m = "int (length (filter (\<lambda>p. \<not> filteredOut sl name (fst (getProcessDetails sl p))) procs))"
  have L: "1 \<le> ?L" using effectiveLimit_range by simp
  have g: "int (length ?g) = min ?m (?L * 2)"
    using length_processLoop [of "[]" ?L sl name procs] L by simp
  have s: "length ?s = length ?g"
    by (rule length_sortProcessesBy)
  have e: "getProcessInfo sl lib pid name limit sortBy
             = Inr \<lparr>Processes = ?list, Count = int (length ?list)\<rparr>"
    using assms by (simp add: getProcessInfo_def Let_def)
  have "int (length ?list) = min (int (length ?s)) ?L"
    using L by (auto simp: min_def)
  also have "\<dots> = min (min ?m (?L * 2)) ?L"
    using g s by simp
  also have "\<dots> = min ?m ?L"
    using L by (simp add: min_def)
  finally have "int (length ?list) = min ?m ?L" .
  then show ?thesis using e by simp
qed

lemma getProcessInfo_single:
  assumes "0 <s pid" and "getProcessInfo sl lib pid name limit sortBy = Inr r"
  shows "length (Processes r) = 1 \<and> Count r = 1"
proof (cases "NewProcess lib pid")
  case (Inl e)
  then show ?thesis using assms by (simp add: getProcessInfo_def Let_def)
next
  case (Inr proc)
  obtain info where d: "getProcessDetails sl proc = (info, None)"
    using getProcessDetails_pair by blast
  have "getProcessInfo sl lib pid name limit sortBy = Inr \<lparr>Processes = [info], Count = 1\<rparr>"
    using assms(1) Inr d by (simp add: getProcessInfo_def Let_def)
  then show ?thesis using assms(2) by auto
qed

text \<open>
  C3: let \<open>L\<close> be 10 for a non-positive limit, 200 for a limit above 200, and the given limit
  otherwise. A successful call of \<^const>\<open>getProcessInfo\<close> returns at most \<open>L\<close> records, hence
  at most 200, and the count field is their number. That \<open>L\<close> is the limit in force shows in
  the result: with a pid the call returns one record; without a pid it returns exactly \<open>L\<close>
  records when at least \<open>L\<close> of the enumerated processes pass the name filter, and all of
  those that pass otherwise.
\<close>

theorem getProcessInfo_limit:
  assumes "getProcessInfo sl lib pid name limit sortBy = Inr r"
  shows "\<exists>L. L = (if limit \<le> 0 then 10 else if limit > 200 then 200 else limit)
           \<and> int (length (Processes r)) \<le> L \<and> L \<le> 200
           \<and> Count r = int (length (Processes r))
           \<and> (0 <s pid \<longrightarrow> length (Processes r) = 1)
           \<and> (\<forall>procs. \<not> 0 <s pid \<and> ProcessesWithContext lib = Inr procs \<longrightarrow>
                 int (length (Processes r)) =
                   min (int (length (filter
                          (\<lambda>p. \<not> filteredOut sl name (fst (getProcessDetails sl p))) procs)))
                       L)"
proof (cases "0 <s pid")
  case True
  then have "length (Processes r) = 1 \<and> Count r = 1"
    using assms getProcessInfo_single by blast
  then show ?thesis using True by simp
next
  case False
  have "ProcessesWithContext lib \<noteq> Inl e" for e
    using assms False by (auto simp: getProcessInfo_def Let_def)
  then obtain procs where p: "ProcessesWithContext lib = Inr procs"
    by (cases "ProcessesWithContext lib") auto
  from getProcessInfo_enumeration [OF False p, of sl name limit sortBy] assms
  have "Count r = int (length (Processes r))
        \<and> int (length (Processes r)) =
              min (int (length (filter (\<lambda>p. \<not> filteredOut sl name (fst (getProcessDetails sl p))) procs)))
                  (effectiveLimit limit)"
    by auto
  then show ?thesis using False p effectiveLimit_cases [of limit] by auto
qed

lemma workers_kept:
  "length (filter (\<lambda>p. \<not> filteredOut sl [] (fst (getProcessDetails sl p))) (workers n)) = n"
  by (simp add: filteredOut_def workers_def)

lemma three_kept:
  "length (filter (\<lambda>p. \<not> filteredOut sl [] (fst (getProcessDetails sl p))) threeProcs) = 3"
  by (simp add: filteredOut_def threeProcs_def)

theorem getProcessInfo_limit_witness:
  "(\<exists>r. getProcessInfo tableStrings threeLib 0 [] 0 [] = Inr r \<and> length (Processes r) = 3)
   \<and> (\<exists>r. getProcessInfo tableStrings threeLib 0 [] 2 [] = Inr r \<and> length (Processes r) = 2)
   \<and> (\<exists>r. getProcessInfo tableStrings (workersLib 12) 0 [] (- 5) [] = Inr r
          \<and> length (Processes r) = 10)
   \<and> (\<exists>r. getProcessInfo tableStrings (workersLib 250) 0 [] 300 [] = Inr r
          \<and> length (Processes r) = 200)"
proof -
  have z: "\<not> 0 <s (0 :: int32)" by simp
  have t: "ProcessesWithContext threeLib = Inr threeProcs" by (simp add: threeLib_def)
  have w: "ProcessesWithContext (workersLib n) = Inr (workers n)" for n
    by (simp add: workersLib_def)
  obtain r1 where r1: "getProcessInfo tableStrings threeLib 0 [] 0 [] = Inr r1"
    using getProcessInfo_enumeration [OF z t] by blast
  obtain r2 where r2: "getProcessInfo tableStrings threeLib 0 [] 2 [] = Inr r2"
    using getProcessInfo_enumeration [OF z t] by blast
  obtain r3 where r3: "getProcessInfo tableStrings (workersLib 12) 0 [] (- 5) [] = Inr r3"
    using getProcessInfo_enumeration [OF z w] by blast
  obtain r4 where r4: "getProcessInfo tableStrings (workersLib 250) 0 [] 300 [] = Inr r4"
    using getProcessInfo_enumeration [OF z w] by blast
  have "length (Processes r1) = 3"
    using getProcessInfo_limit [OF r1] z t by (simp add: three_kept)
  moreover have "length (Processes r2) = 2"
    using getProcessInfo_limit [OF r2] z t by (simp add: three_kept)
  moreover have "length (Processes r3) = 10"
    using getProcessInfo_limit [OF r3] z w by (simp add: workers_kept)
  moreover have "length (Processes r4) = 200"
    using getProcessInfo_limit [OF r4] z w by (simp add: workers_kept)
  ultimately show ?thesis using r1 r2 r3 r4 by simp
qed

subsection \<open>Processes whose detail queries fail\<close>

text \<open>
  C2: \<^const>\<open>getProcessDetails\<close> drops the error of every query and never returns one, so the
  loop of \<^const>\<open>getProcessInfo\<close> never skips a process. A process all of whose queries fail
  is not omitted: it is returned as a record that holds its pid and zero values.
\<close>

theorem getProcessInfo_keeps_failed_process:
  "getProcessDetails tableStrings (goneProcess 4242) = (ghostInfo 4242, None)
   \<and> getProcessInfo tableStrings churnLib 0 [] 10 [] =
       Inr \<lparr>Processes = [fst (getProcessDetails tableStrings (liveProcess 1 ''init'' (Num 2) (Num 1))),
                          ghostInfo 4242],
            Count = 2\<rparr>"
  by code_simp

subsection \<open>Unknown JSON-RPC methods\<close>









end
